theory Spec2Isabelle
  imports Main
begin

section \<open>Values handed to the dialog state manager\<close>

text \<open>
  The state manager of \<^verbatim>\<open>src/dialog/state.js\<close> receives arbitrary JavaScript values as
  conversation state.  The values modelled here are \<^verbatim>\<open>undefined\<close>, \<^verbatim>\<open>null\<close>, booleans,
  integer numbers, strings, arrays and plain objects.  A plain object is the list of its
  own properties in enumeration order.  Non-integer numbers are floating point and are
  left out; a string is a list of 8-bit characters.
\<close>

datatype jsvalue =
    Undefined
  | Null
  | Bool bool
  | Num int
  | Str string
  | Arr "jsvalue list"
  | Obj "(string \<times> jsvalue) list"

text \<open>\<^verbatim>\<open>_.isNil(value)\<close>: the value is \<^verbatim>\<open>null\<close> or \<^verbatim>\<open>undefined\<close>.\<close>

fun isNil :: "jsvalue \<Rightarrow> bool" where
  "isNil Undefined = True"
| "isNil Null = True"
| "isNil _ = False"

text \<open>\<^verbatim>\<open>_.isPlainObject(value)\<close>: of the values above only objects are plain objects.\<close>

fun isPlainObject :: "jsvalue \<Rightarrow> bool" where
  "isPlainObject (Obj _) = True"
| "isPlainObject _ = False"

section \<open>The platform's JSON text format\<close>

text \<open>
  \<^verbatim>\<open>_upsertState\<close> and \<^verbatim>\<open>_createSession\<close> store \<^verbatim>\<open>JSON.stringify(state)\<close> in the
  \<^verbatim>\<open>state\<close> column and \<^verbatim>\<open>getState\<close> returns \<^verbatim>\<open>JSON.parse(session.state)\<close>.  Both are
  functions of the platform, not of the repository; they are written out here on the
  values above so that what is read back is computed from the stored text.

  \<^verbatim>\<open>stringify\<close> produces the text without white space.  An integer is printed in decimal,
  as the platform prints the integers it represents exactly.
  Inside a string the quotation mark and the backslash are escaped with a backslash, the
  control characters below \<^verbatim>\<open>0x20\<close> are written \<^verbatim>\<open>\b \f \n \r \t\<close> or \<^verbatim>\<open>\u00XX\<close>.  A property
  whose value is \<^verbatim>\<open>undefined\<close> is left out of an object, and \<^verbatim>\<open>undefined\<close> inside an array
  is printed as \<^verbatim>\<open>null\<close>.  (At top level the platform returns \<^verbatim>\<open>undefined\<close> instead of a
  text for \<^verbatim>\<open>undefined\<close>; the state manager only ever serialises plain objects.)
\<close>

definition is_digit :: "char \<Rightarrow> bool" where
  "is_digit c = (48 \<le> (of_char c :: nat) \<and> (of_char c :: nat) < 58)"

definition digit_char :: "nat \<Rightarrow> char" where
  "digit_char n = char_of (48 + n)"

definition digit_val :: "char \<Rightarrow> nat" where
  "digit_val c = of_char c - 48"

fun digits :: "nat \<Rightarrow> string" where
  "digits n = (if n < 10 then [digit_char n] else digits (n div 10) @ [digit_char (n mod 10)])"

declare digits.simps [simp del]

definition hex_char :: "nat \<Rightarrow> char" where
  "hex_char n = (if n < 10 then char_of (48 + n) else char_of (87 + n))"

definition hex_val :: "char \<Rightarrow> nat option" where
  "hex_val c =
     (let n = (of_char c :: nat) in
      if 48 \<le> n \<and> n < 58 then Some (n - 48)
      else if 97 \<le> n \<and> n < 103 then Some (n - 87)
      else if 65 \<le> n \<and> n < 71 then Some (n - 55)
      else None)"

definition escape_char :: "char \<Rightarrow> string" where
  "escape_char c =
     (if c = CHR 0x22 then [CHR 0x5C, CHR 0x22]
      else if c = CHR 0x5C then [CHR 0x5C, CHR 0x5C]
      else if c = CHR 0x08 then [CHR 0x5C, CHR ''b'']
      else if c = CHR 0x0C then [CHR 0x5C, CHR ''f'']
      else if c = CHR 0x0A then [CHR 0x5C, CHR ''n'']
      else if c = CHR 0x0D then [CHR 0x5C, CHR ''r'']
      else if c = CHR 0x09 then [CHR 0x5C, CHR ''t'']
      else if (of_char c :: nat) < 32
        then [CHR 0x5C, CHR ''u'', CHR ''0'', CHR ''0'',
              hex_char (of_char c div 16), hex_char (of_char c mod 16)]
      else [c])"

definition quote :: "string \<Rightarrow> string" where
  "quote s = CHR 0x22 # concat (map escape_char s) @ [CHR 0x22]"

fun join_commas :: "string list \<Rightarrow> string" where
  "join_commas [] = []"
| "join_commas [x] = x"
| "join_commas (x # y # ys) = x @ CHR '','' # join_commas (y # ys)"

fun stringify :: "jsvalue \<Rightarrow> string"
  and stringify_items :: "jsvalue list \<Rightarrow> string list"
  and stringify_members :: "(string \<times> jsvalue) list \<Rightarrow> string list"
where
  "stringify Undefined = ''null''"
| "stringify Null = ''null''"
| "stringify (Bool b) = (if b then ''true'' else ''false'')"
| "stringify (Num i) = (if i < 0 then CHR ''-'' # digits (nat (- i)) else digits (nat i))"
| "stringify (Str s) = quote s"
| "stringify (Arr vs) = CHR ''['' # join_commas (stringify_items vs) @ '']''"
| "stringify (Obj ms) = CHR ''{'' # join_commas (stringify_members ms) @ ''}''"
| "stringify_items [] = []"
| "stringify_items (v # vs) = stringify v # stringify_items vs"
| "stringify_members [] = []"
| "stringify_members ((k, v) # ms) =
     (if v = Undefined then stringify_members ms
      else (quote k @ CHR '':'' # stringify v) # stringify_members ms)"

text \<open>
  \<^verbatim>\<open>JSON.parse\<close> on texts without white space.  \<open>parse_value\<close> returns the value at the
  front of the text and the rest of the text; its first argument bounds the nesting and
  the number of elements it may walk through, and \<open>JSON_parse\<close> gives it more than the
  length of the text.  A text that is not a value followed by nothing is a syntax error
  (\<open>None\<close>).  Only texts written by \<open>stringify\<close> are ever stored in the table.
\<close>

fun parse_digits :: "nat \<Rightarrow> string \<Rightarrow> nat \<times> string" where
  "parse_digits acc [] = (acc, [])"
| "parse_digits acc (c # cs) =
     (if is_digit c then parse_digits (10 * acc + digit_val c) cs else (acc, c # cs))"

definition strip_prefix :: "string \<Rightarrow> string \<Rightarrow> string option" where
  "strip_prefix p s = (if take (length p) s = p then Some (drop (length p) s) else None)"

definition unescape_char :: "char \<Rightarrow> char option" where
  "unescape_char e =
     (if e = CHR 0x22 then Some (CHR 0x22)
      else if e = CHR 0x5C then Some (CHR 0x5C)
      else if e = CHR ''/'' then Some (CHR ''/'')
      else if e = CHR ''b'' then Some (CHR 0x08)
      else if e = CHR ''f'' then Some (CHR 0x0C)
      else if e = CHR ''n'' then Some (CHR 0x0A)
      else if e = CHR ''r'' then Some (CHR 0x0D)
      else if e = CHR ''t'' then Some (CHR 0x09)
      else None)"

definition hex4 :: "char \<Rightarrow> char \<Rightarrow> char \<Rightarrow> char \<Rightarrow> char option" where
  "hex4 a b c d =
     (case (hex_val a, hex_val b, hex_val c, hex_val d) of
        (Some w, Some x, Some y, Some z) \<Rightarrow>
          (if w = 0 \<and> x = 0 then Some (char_of (16 * y + z)) else None)
      | _ \<Rightarrow> None)"

definition cons_fst :: "'a \<Rightarrow> ('a list \<times> 'b) option \<Rightarrow> ('a list \<times> 'b) option" where
  "cons_fst x r = (case r of None \<Rightarrow> None | Some (xs, rest) \<Rightarrow> Some (x # xs, rest))"

fun parse_chars :: "string \<Rightarrow> (string \<times> string) option" where
  "parse_chars [] = None"
| "parse_chars (c # cs) =
     (if c = CHR 0x22 then Some ([], cs)
      else if c = CHR 0x5C then
        (case cs of
           [] \<Rightarrow> None
         | e # cs1 \<Rightarrow>
             if e = CHR ''u'' then
               (case cs1 of
                  h1 # h2 # h3 # h4 # cs2 \<Rightarrow>
                    (case hex4 h1 h2 h3 h4 of
                       None \<Rightarrow> None
                     | Some ch \<Rightarrow> cons_fst ch (parse_chars cs2))
                | _ \<Rightarrow> None)
             else
               (case unescape_char e of
                  None \<Rightarrow> None
                | Some ch \<Rightarrow> cons_fst ch (parse_chars cs1)))
      else if (of_char c :: nat) < 32 then None
      else cons_fst c (parse_chars cs))"

fun parse_value :: "nat \<Rightarrow> string \<Rightarrow> (jsvalue \<times> string) option"
  and parse_items :: "nat \<Rightarrow> string \<Rightarrow> (jsvalue list \<times> string) option"
  and parse_members :: "nat \<Rightarrow> string \<Rightarrow> ((string \<times> jsvalue) list \<times> string) option"
where
  "parse_value 0 s = None"
| "parse_value (Suc n) [] = None"
| "parse_value (Suc n) (c # cs) =
     (if is_digit c then
        (case parse_digits 0 (c # cs) of (m, rest) \<Rightarrow> Some (Num (int m), rest))
      else if c = CHR ''-'' then
        (case cs of
           [] \<Rightarrow> None
         | d # ds \<Rightarrow>
             if is_digit d
             then (case parse_digits 0 cs of (m, rest) \<Rightarrow> Some (Num (- int m), rest))
             else None)
      else if c = CHR ''n'' then map_option (Pair Null) (strip_prefix ''ull'' cs)
      else if c = CHR ''t'' then map_option (Pair (Bool True)) (strip_prefix ''rue'' cs)
      else if c = CHR ''f'' then map_option (Pair (Bool False)) (strip_prefix ''alse'' cs)
      else if c = CHR 0x22 then map_option (apfst Str) (parse_chars cs)
      else if c = CHR ''['' then
        (case cs of
           [] \<Rightarrow> None
         | d # ds \<Rightarrow>
             if d = CHR '']'' then Some (Arr [], ds)
             else map_option (apfst Arr) (parse_items n cs))
      else if c = CHR ''{'' then
        (case cs of
           [] \<Rightarrow> None
         | d # ds \<Rightarrow>
             if d = CHR ''}'' then Some (Obj [], ds)
             else map_option (apfst Obj) (parse_members n cs))
      else None)"
| "parse_items 0 s = None"
| "parse_items (Suc n) s =
     (case parse_value n s of
        None \<Rightarrow> None
      | Some (v, rest) \<Rightarrow>
          (case rest of
             [] \<Rightarrow> None
           | d # ds \<Rightarrow>
               if d = CHR '','' then cons_fst v (parse_items n ds)
               else if d = CHR '']'' then Some ([v], ds)
               else None))"
| "parse_members 0 s = None"
| "parse_members (Suc n) s =
     (case s of
        [] \<Rightarrow> None
      | q # s1 \<Rightarrow>
          if q \<noteq> CHR 0x22 then None
          else
            (case parse_chars s1 of
               None \<Rightarrow> None
             | Some (k, r1) \<Rightarrow>
                 (case r1 of
                    [] \<Rightarrow> None
                  | col # r2 \<Rightarrow>
                      if col \<noteq> CHR '':'' then None
                      else
                        (case parse_value n r2 of
                           None \<Rightarrow> None
                         | Some (v, r3) \<Rightarrow>
                             (case r3 of
                                [] \<Rightarrow> None
                              | d # ds \<Rightarrow>
                                  if d = CHR '','' then cons_fst (k, v) (parse_members n ds)
                                  else if d = CHR ''}'' then Some ([(k, v)], ds)
                                  else None)))))"

definition JSON_parse :: "string \<Rightarrow> jsvalue option" where
  "JSON_parse s =
     (case parse_value (Suc (length s)) s of
        Some (v, []) \<Rightarrow> Some v
      | _ \<Rightarrow> None)"

text \<open>A number ends where the text ends or a character that is not a digit follows.\<close>

fun ends_number :: "string \<Rightarrow> bool" where
  "ends_number [] = True"
| "ends_number (c # cs) = (\<not> is_digit c)"

text \<open>
  The values that JSON represents: no \<^verbatim>\<open>undefined\<close> at top level, in an array or in a
  property, at any depth.
\<close>

fun serializable :: "jsvalue \<Rightarrow> bool"
  and serializable_items :: "jsvalue list \<Rightarrow> bool"
  and serializable_members :: "(string \<times> jsvalue) list \<Rightarrow> bool"
where
  "serializable Undefined = False"
| "serializable Null = True"
| "serializable (Bool b) = True"
| "serializable (Num i) = True"
| "serializable (Str s) = True"
| "serializable (Arr vs) = serializable_items vs"
| "serializable (Obj ms) = serializable_members ms"
| "serializable_items [] = True"
| "serializable_items (v # vs) = (serializable v \<and> serializable_items vs)"
| "serializable_members [] = True"
| "serializable_members ((k, v) # ms) = (serializable v \<and> serializable_members ms)"

section \<open>The session table\<close>

text \<open>
  A row of \<^verbatim>\<open>dialog_sessions\<close> has the columns \<^verbatim>\<open>id\<close>, \<^verbatim>\<open>state\<close>, \<^verbatim>\<open>active_on\<close> and
  \<^verbatim>\<open>created_on\<close>; the timestamp columns may hold \<^verbatim>\<open>NULL\<close>.  The statement
  \<^verbatim>\<open>ON CONFLICT (id)\<close> of \<^verbatim>\<open>_upsertState\<close> presupposes that \<^verbatim>\<open>id\<close> is a unique key, so the
  table is a map from ids to rows.
\<close>

record session =
  id_col :: string
  state :: string
  active_on :: "nat option"
  created_on :: "nat option"

type_synonym dialog_sessions = "string \<rightharpoonup> session"

text \<open>
  What \<^verbatim>\<open>db.get()\<close> hands to one operation: the flavour of the backend
  (\<^verbatim>\<open>helpers(knex).isLite()\<close>), the reading of the clock (\<^verbatim>\<open>helpers(knex).date.now()\<close>) and the
  value that the table gives to \<^verbatim>\<open>created_on\<close> when an \<^verbatim>\<open>INSERT\<close> does not list that
  column.  The table declaration is not part of the source file, so this default is a
  parameter.
\<close>

record knex =
  isLite :: bool
  now :: nat
  created_on_default :: "nat option"

text \<open>
  The failures of the module: the \<^verbatim>\<open>Error\<close> thrown by \<^verbatim>\<open>setState\<close>, the rejection of a
  plain \<^verbatim>\<open>INSERT\<close> whose id is already in the table, and the \<^verbatim>\<open>SyntaxError\<close> of
  \<^verbatim>\<open>JSON.parse\<close>.
\<close>

datatype error = StateMustBePlainObject | UniqueViolation | SyntaxError

type_synonym 'a outcome = "(error + 'a) \<times> dialog_sessions"

section \<open>The state manager\<close>

text \<open>
  \<^verbatim>\<open>Object.assign({ _isExpired: session => false }, internals)\<close>: the caller may replace
  the expiry hook; without a replacement no session is ever expired.
\<close>

definition isExpired :: "(session \<Rightarrow> bool) option \<Rightarrow> session \<Rightarrow> bool" where
  "isExpired internals =
     (case internals of None \<Rightarrow> (\<lambda>session. False) | Some hook \<Rightarrow> hook)"

text \<open>
  \<^verbatim>\<open>_upsertState\<close>.  On the lite backend \<^verbatim>\<open>INSERT OR REPLACE\<close> removes a row with the same id
  and inserts the three listed columns.  Otherwise the row is inserted with both
  timestamps, and on a conflict the existing row keeps everything but \<^verbatim>\<open>active_on\<close> and
  \<^verbatim>\<open>state\<close>.
\<close>

definition upsertState :: "knex \<Rightarrow> dialog_sessions \<Rightarrow> string \<Rightarrow> jsvalue \<Rightarrow> unit outcome" where
  "upsertState knex tbl stateId st =
     (if isLite knex then
        (Inr (), tbl(stateId \<mapsto>
           \<lparr>id_col = stateId, state = stringify st, active_on = Some (now knex),
            created_on = created_on_default knex\<rparr>))
      else
        (case tbl stateId of
           None \<Rightarrow>
             (Inr (), tbl(stateId \<mapsto>
                \<lparr>id_col = stateId, state = stringify st, active_on = Some (now knex),
                 created_on = Some (now knex)\<rparr>))
         | Some existing \<Rightarrow>
             (Inr (), tbl(stateId \<mapsto>
                existing\<lparr>active_on := Some (now knex), state := stringify st\<rparr>))))"

definition createEmptyState :: "string \<Rightarrow> jsvalue" where
  "createEmptyState stateId = Obj [(''_stateId'', Str stateId)]"

text \<open>\<^verbatim>\<open>_createSession\<close>: a plain \<^verbatim>\<open>insert\<close> of \<^verbatim>\<open>sessionData\<close>, rejected when the id exists.\<close>

definition sessionData :: "knex \<Rightarrow> string \<Rightarrow> session" where
  "sessionData knex stateId =
     \<lparr>id_col = stateId, state = stringify (createEmptyState stateId),
      active_on = Some (now knex), created_on = Some (now knex)\<rparr>"

definition createSession :: "knex \<Rightarrow> dialog_sessions \<Rightarrow> string \<Rightarrow> unit outcome" where
  "createSession knex tbl stateId =
     (case tbl stateId of
        Some existing \<Rightarrow> (Inl UniqueViolation, tbl)
      | None \<Rightarrow> (Inr (), tbl(stateId \<mapsto> sessionData knex stateId)))"

text \<open>
  \<^verbatim>\<open>getState\<close> calls itself after \<^verbatim>\<open>_createSession\<close>.  The first argument bounds the number
  of activations of \<^verbatim>\<open>getState\<close>; \<open>None\<close> means that the bound was reached before an
  activation returned.  A failure of \<^verbatim>\<open>_createSession\<close> or of \<^verbatim>\<open>JSON.parse\<close> rejects the
  promise and ends the run.  At most one insert of a run succeeds, so the one clock reading
  of \<open>knex\<close> serves the whole run.
\<close>

fun getState ::
  "nat \<Rightarrow> (session \<Rightarrow> bool) option \<Rightarrow> knex \<Rightarrow> dialog_sessions \<Rightarrow> string \<Rightarrow> jsvalue outcome option"
where
  "getState 0 internals knex tbl stateId = None"
| "getState (Suc n) internals knex tbl stateId =
     (case tbl stateId of
        Some session \<Rightarrow>
          if isExpired internals session then
            (case createSession knex tbl stateId of
               (Inl e, tbl') \<Rightarrow> Some (Inl e, tbl')
             | (Inr u, tbl') \<Rightarrow> getState n internals knex tbl' stateId)
          else
            (case JSON_parse (state session) of
               None \<Rightarrow> Some (Inl SyntaxError, tbl)
             | Some doc \<Rightarrow> Some (Inr doc, tbl))
      | None \<Rightarrow>
          (case createSession knex tbl stateId of
             (Inl e, tbl') \<Rightarrow> Some (Inl e, tbl')
           | (Inr u, tbl') \<Rightarrow> getState n internals knex tbl' stateId))"

text \<open>\<^verbatim>\<open>setState\<close>: nil becomes the empty state, anything but a plain object is refused.\<close>

definition setState :: "knex \<Rightarrow> dialog_sessions \<Rightarrow> string \<Rightarrow> jsvalue \<Rightarrow> unit outcome" where
  "setState knex tbl stateId st =
     (let st' = (if isNil st then createEmptyState stateId else st)
      in if \<not> isPlainObject st' then (Inl StateMustBePlainObject, tbl)
         else upsertState knex tbl stateId st')"

text \<open>
  \<^verbatim>\<open>deleteState\<close>: the second argument is optional and defaults to \<^verbatim>\<open>['context']\<close>.  All rows
  whose id is among \<^verbatim>\<open>states\<close> are deleted; a delete that matches no row deletes nothing.
\<close>

definition deleteState :: "dialog_sessions \<Rightarrow> string \<Rightarrow> string list option \<Rightarrow> unit outcome" where
  "deleteState tbl stateId substates_arg =
     (let substates = (case substates_arg of None \<Rightarrow> [''context''] | Some xs \<Rightarrow> xs);
          states = stateId # map (\<lambda>x. stateId @ ''___'' @ x) substates
      in (Inr (), (\<lambda>k. if k \<in> set states then None else tbl k)))"


section \<open>Reading back what was written\<close>

lemma is_digit_digit_char: "n < 10 \<Longrightarrow> is_digit (digit_char n)"
  by (simp add: is_digit_def digit_char_def)

lemma digit_val_digit_char: "n < 10 \<Longrightarrow> digit_val (digit_char n) = n"
  by (simp add: digit_val_def digit_char_def)

lemma digits_start: "\<exists>c cs. digits n = c # cs \<and> is_digit c"
proof (induction n rule: digits.induct)
  case (1 n)
  show ?case
  proof (cases "n < 10")
    case True
    then show ?thesis by (simp add: digits.simps [of n] is_digit_digit_char)
  next
    case False
    with 1 obtain c cs where "digits (n div 10) = c # cs" "is_digit c" by blast
    with False show ?thesis by (simp add: digits.simps [of n])
  qed
qed

lemma parse_digits_digits:
  "parse_digits acc (digits n @ rest) = parse_digits (acc * 10 ^ length (digits n) + n) rest"
proof (induction n arbitrary: acc rest rule: digits.induct)
  case (1 n)
  show ?case
  proof (cases "n < 10")
    case True
    then show ?thesis
      by (simp add: digits.simps [of n] is_digit_digit_char digit_val_digit_char mult.commute)
  next
    case False
    have m: "n mod 10 < 10" by simp
    have "parse_digits acc (digits n @ rest)
        = parse_digits acc (digits (n div 10) @ (digit_char (n mod 10) # rest))"
      using False by (simp add: digits.simps [of n])
    also have "\<dots> = parse_digits (acc * 10 ^ length (digits (n div 10)) + n div 10)
                       (digit_char (n mod 10) # rest)"
      using False by (rule "1.IH")
    also have "\<dots> = parse_digits
                       (10 * (acc * 10 ^ length (digits (n div 10)) + n div 10) + n mod 10) rest"
      using m by (simp add: is_digit_digit_char digit_val_digit_char)
    also have "10 * (acc * 10 ^ length (digits (n div 10)) + n div 10) + n mod 10
             = acc * 10 ^ length (digits n) + n"
      using False by (simp add: digits.simps [of n] algebra_simps)
    finally show ?thesis .
  qed
qed

lemma parse_digits_stop: "ends_number rest \<Longrightarrow> parse_digits acc rest = (acc, rest)"
  by (cases rest) simp_all

lemma parse_digits_number:
  "ends_number rest \<Longrightarrow> parse_digits 0 (digits n @ rest) = (n, rest)"
  by (simp add: parse_digits_digits parse_digits_stop)

lemma hex_val_hex_char: "n < 16 \<Longrightarrow> hex_val (hex_char n) = Some n"
  by (simp add: hex_val_def hex_char_def Let_def)

lemma hex_val_zero: "hex_val (CHR ''0'') = Some 0"
  by (simp add: hex_val_def)

lemma hex4_control:
  assumes "(of_char c :: nat) < 32"
  shows "hex4 (CHR ''0'') (CHR ''0'') (hex_char (of_char c div 16)) (hex_char (of_char c mod 16))
         = Some c"
proof -
  have d: "(of_char c :: nat) div 16 < 16" using assms by simp
  have m: "(of_char c :: nat) mod 16 < 16" by simp
  have "char_of (16 * ((of_char c :: nat) div 16) + of_char c mod 16) = c"
    by simp
  then show ?thesis
    by (simp add: hex4_def hex_val_zero hex_val_hex_char [OF d] hex_val_hex_char [OF m])
qed

lemma cons_fst_simps [simp]:
  "cons_fst x None = None"
  "cons_fst x (Some (xs, rest)) = Some (x # xs, rest)"
  by (simp_all add: cons_fst_def)

lemma parse_chars_escape: "parse_chars (escape_char c @ t) = cons_fst c (parse_chars t)"
proof (cases "(of_char c :: nat) < 32")
  case True
  then have ne: "c \<noteq> CHR 0x22" "c \<noteq> CHR 0x5C" by auto
  show ?thesis
    using True ne
    by (auto simp add: escape_char_def unescape_char_def hex4_control)
next
  case False
  then show ?thesis
    by (auto simp add: escape_char_def unescape_char_def)
qed

lemma parse_chars_quoted:
  "parse_chars (concat (map escape_char s) @ CHR 0x22 # rest) = Some (s, rest)"
proof (induction s)
  case Nil
  show ?case by simp
next
  case (Cons c s)
  have "parse_chars (concat (map escape_char (c # s)) @ CHR 0x22 # rest)
      = parse_chars (escape_char c @ (concat (map escape_char s) @ CHR 0x22 # rest))"
    by simp
  also have "\<dots> = cons_fst c (parse_chars (concat (map escape_char s) @ CHR 0x22 # rest))"
    by (rule parse_chars_escape)
  also have "\<dots> = Some (c # s, rest)"
    by (simp add: Cons.IH)
  finally show ?case .
qed

lemma strip_prefix_append: "strip_prefix p (p @ r) = Some r"
  by (simp add: strip_prefix_def)

lemma is_digit_not_bracket: "is_digit c \<Longrightarrow> c \<noteq> CHR '']''"
  by (auto simp add: is_digit_def)

lemma stringify_start: "\<exists>c cs. stringify v = c # cs \<and> c \<noteq> CHR '']''"
proof (cases v)
  case (Num i)
  obtain c cs where "digits (nat i) = c # cs" "is_digit c"
    using digits_start by blast
  then show ?thesis using Num by (simp add: is_digit_not_bracket)
qed (simp_all add: quote_def)

lemma join_commas_Cons:
  "join_commas (x # xs) = (if xs = [] then x else x @ CHR '','' # join_commas xs)"
  by (cases xs) simp_all

lemma stringify_items_eq_Nil: "(stringify_items vs = []) = (vs = [])"
  by (cases vs) simp_all

lemma items_start:
  assumes "vs \<noteq> []"
  shows "\<exists>c cs. join_commas (stringify_items vs) = c # cs \<and> c \<noteq> CHR '']''"
proof -
  from assms obtain v vs' where vs: "vs = v # vs'" by (cases vs) auto
  obtain c cs where "stringify v = c # cs" "c \<noteq> CHR '']''"
    using stringify_start by blast
  then show ?thesis by (simp add: vs join_commas_Cons)
qed

lemma parse_value_Num:
  assumes "ends_number rest"
  shows "parse_value (Suc n) (stringify (Num i) @ rest) = Some (Num i, rest)"
proof (cases "i < 0")
  case True
  obtain c cs where d: "digits (nat (- i)) = c # cs" "is_digit c"
    using digits_start by blast
  have "parse_digits 0 (digits (nat (- i)) @ rest) = (nat (- i), rest)"
    using assms by (rule parse_digits_number)
  then have "parse_digits 0 (c # cs @ rest) = (nat (- i), rest)"
    by (simp only: d append_Cons)
  moreover have "\<not> is_digit (CHR ''-'')" by (simp add: is_digit_def)
  ultimately show ?thesis
    using True d by (simp del: parse_digits.simps)
next
  case False
  obtain c cs where d: "digits (nat i) = c # cs" "is_digit c"
    using digits_start by blast
  have "parse_digits 0 (digits (nat i) @ rest) = (nat i, rest)"
    using assms by (rule parse_digits_number)
  then have "parse_digits 0 (c # cs @ rest) = (nat i, rest)"
    by (simp only: d append_Cons)
  then show ?thesis
    using False d by (simp del: parse_digits.simps)
qed

lemma parse_value_Str:
  "parse_value (Suc n) (stringify (Str s) @ rest) = Some (Str s, rest)"
  by (simp add: quote_def parse_chars_quoted is_digit_def)

lemma parse_value_Arr:
  assumes IH: "\<And>m r. vs \<noteq> [] \<Longrightarrow> length (join_commas (stringify_items vs)) < m \<Longrightarrow>
      parse_items m (join_commas (stringify_items vs) @ CHR '']'' # r) = Some (vs, r)"
    and len: "length (stringify (Arr vs)) \<le> n"
  shows "parse_value n (stringify (Arr vs) @ rest) = Some (Arr vs, rest)"
proof -
  from len obtain m where n: "n = Suc m" and m: "length (join_commas (stringify_items vs)) < m"
    by (cases n) auto
  show ?thesis
  proof (cases "vs = []")
    case True
    then show ?thesis by (simp add: n is_digit_def)
  next
    case False
    obtain c cs where s: "join_commas (stringify_items vs) = c # cs" "c \<noteq> CHR '']''"
      using items_start [OF False] by blast
    have "parse_items m (join_commas (stringify_items vs) @ CHR '']'' # rest) = Some (vs, rest)"
      using False m by (rule IH)
    then have "parse_items m (c # cs @ CHR '']'' # rest) = Some (vs, rest)"
      by (simp only: s append_Cons)
    then show ?thesis
      using s by (simp add: n is_digit_def)
  qed
qed

lemma members_start:
  assumes "ms \<noteq> []" "serializable_members ms"
  shows "\<exists>cs. join_commas (stringify_members ms) = CHR 0x22 # cs"
proof -
  from assms obtain k v ms' where ms: "ms = (k, v) # ms'" by (cases ms) auto
  with assms have "v \<noteq> Undefined" by auto
  then show ?thesis by (simp add: ms join_commas_Cons quote_def)
qed

lemma parse_value_Obj:
  assumes IH: "\<And>m r. ms \<noteq> [] \<Longrightarrow> length (join_commas (stringify_members ms)) < m \<Longrightarrow>
      parse_members m (join_commas (stringify_members ms) @ CHR ''}'' # r) = Some (ms, r)"
    and ser: "serializable_members ms"
    and len: "length (stringify (Obj ms)) \<le> n"
  shows "parse_value n (stringify (Obj ms) @ rest) = Some (Obj ms, rest)"
proof -
  from len obtain m where n: "n = Suc m" and m: "length (join_commas (stringify_members ms)) < m"
    by (cases n) auto
  show ?thesis
  proof (cases "ms = []")
    case True
    then show ?thesis by (simp add: n is_digit_def)
  next
    case False
    obtain cs where s: "join_commas (stringify_members ms) = CHR 0x22 # cs"
      using members_start [OF False ser] by blast
    have "parse_members m (join_commas (stringify_members ms) @ CHR ''}'' # rest) = Some (ms, rest)"
      using False m by (rule IH)
    then have "parse_members m (CHR 0x22 # cs @ CHR ''}'' # rest) = Some (ms, rest)"
      by (simp only: s append_Cons)
    then show ?thesis
      using s by (simp add: n is_digit_def)
  qed
qed

lemma parse_items_Cons:
  assumes IHv: "\<And>m r. length (stringify v) \<le> m \<Longrightarrow> ends_number r \<Longrightarrow>
      parse_value m (stringify v @ r) = Some (v, r)"
    and IHvs: "\<And>m r. vs \<noteq> [] \<Longrightarrow> length (join_commas (stringify_items vs)) < m \<Longrightarrow>
      parse_items m (join_commas (stringify_items vs) @ CHR '']'' # r) = Some (vs, r)"
    and len: "length (join_commas (stringify_items (v # vs))) < n"
  shows "parse_items n (join_commas (stringify_items (v # vs)) @ CHR '']'' # rest)
         = Some (v # vs, rest)"
proof -
  from len obtain m where n: "n = Suc m" by (cases n) auto
  show ?thesis
  proof (cases "vs = []")
    case True
    with len n have "length (stringify v) \<le> m" by simp
    then have "parse_value m (stringify v @ CHR '']'' # rest) = Some (v, CHR '']'' # rest)"
      by (rule IHv) (simp add: is_digit_def)
    then show ?thesis using True by (simp add: n)
  next
    case False
    have ne: "stringify_items vs \<noteq> []" using False by (simp add: stringify_items_eq_Nil)
    let ?t = "join_commas (stringify_items vs)"
    have j: "join_commas (stringify_items (v # vs)) = stringify v @ CHR '','' # ?t"
      using ne by (simp add: join_commas_Cons)
    from len n j have lv: "length (stringify v) \<le> m" and lt: "length ?t < m" by simp_all
    have "parse_value m (stringify v @ CHR '','' # ?t @ CHR '']'' # rest)
        = Some (v, CHR '','' # ?t @ CHR '']'' # rest)"
      using lv by (rule IHv) (simp add: is_digit_def)
    moreover have "parse_items m (?t @ CHR '']'' # rest) = Some (vs, rest)"
      using False lt by (rule IHvs)
    ultimately show ?thesis unfolding j by (simp add: n)
  qed
qed

lemma parse_members_Cons:
  assumes IHv: "\<And>m r. length (stringify v) \<le> m \<Longrightarrow> ends_number r \<Longrightarrow>
      parse_value m (stringify v @ r) = Some (v, r)"
    and IHms: "\<And>m r. ms \<noteq> [] \<Longrightarrow> length (join_commas (stringify_members ms)) < m \<Longrightarrow>
      parse_members m (join_commas (stringify_members ms) @ CHR ''}'' # r) = Some (ms, r)"
    and def: "v \<noteq> Undefined"
    and ser: "serializable_members ms"
    and len: "length (join_commas (stringify_members ((k, v) # ms))) < n"
  shows "parse_members n (join_commas (stringify_members ((k, v) # ms)) @ CHR ''}'' # rest)
         = Some ((k, v) # ms, rest)"
proof -
  from len obtain m where n: "n = Suc m" by (cases n) auto
  let ?q = "concat (map escape_char k)"
  show ?thesis
  proof (cases "ms = []")
    case True
    with len n def have "length (stringify v) \<le> m" by simp
    then have "parse_value m (stringify v @ CHR ''}'' # rest) = Some (v, CHR ''}'' # rest)"
      by (rule IHv) (simp add: is_digit_def)
    moreover have "parse_chars (?q @ CHR 0x22 # CHR '':'' # stringify v @ CHR ''}'' # rest)
        = Some (k, CHR '':'' # stringify v @ CHR ''}'' # rest)"
      by (rule parse_chars_quoted)
    ultimately show ?thesis using True def by (simp add: n quote_def)
  next
    case False
    then obtain cs where "join_commas (stringify_members ms) = CHR 0x22 # cs"
      using members_start [OF False ser] by blast
    then have ne: "stringify_members ms \<noteq> []" by auto
    let ?t = "join_commas (stringify_members ms)"
    have j: "join_commas (stringify_members ((k, v) # ms))
           = CHR 0x22 # ?q @ CHR 0x22 # CHR '':'' # stringify v @ CHR '','' # ?t"
      using ne def by (simp add: join_commas_Cons quote_def)
    from len n j have lv: "length (stringify v) \<le> m" and lt: "length ?t < m" by simp_all
    have "parse_value m (stringify v @ CHR '','' # ?t @ CHR ''}'' # rest)
        = Some (v, CHR '','' # ?t @ CHR ''}'' # rest)"
      using lv by (rule IHv) (simp add: is_digit_def)
    moreover have "parse_members m (?t @ CHR ''}'' # rest) = Some (ms, rest)"
      using False lt by (rule IHms)
    moreover have "parse_chars (?q @ CHR 0x22 # CHR '':'' # stringify v @ CHR '','' # ?t @ CHR ''}'' # rest)
        = Some (k, CHR '':'' # stringify v @ CHR '','' # ?t @ CHR ''}'' # rest)"
      by (rule parse_chars_quoted)
    ultimately show ?thesis unfolding j by (simp add: n)
  qed
qed

lemma parse_stringify:
  shows "serializable v \<Longrightarrow> length (stringify v) \<le> n \<Longrightarrow> ends_number rest \<Longrightarrow>
           parse_value n (stringify v @ rest) = Some (v, rest)"
    and "serializable_items vs \<Longrightarrow> vs \<noteq> [] \<Longrightarrow>
           length (join_commas (stringify_items vs)) < n \<Longrightarrow>
           parse_items n (join_commas (stringify_items vs) @ CHR '']'' # rest) = Some (vs, rest)"
    and "serializable_members ms \<Longrightarrow> ms \<noteq> [] \<Longrightarrow>
           length (join_commas (stringify_members ms)) < n \<Longrightarrow>
           parse_members n (join_commas (stringify_members ms) @ CHR ''}'' # rest) = Some (ms, rest)"
proof (induction v and vs and ms arbitrary: n rest and n rest and n rest
       rule: stringify_stringify_items_stringify_members.induct)
  case 1
  then show ?case by simp
next
  case 2
  then obtain m where "n = Suc m" by (cases n) auto
  then show ?case by (simp add: is_digit_def strip_prefix_def)
next
  case (3 b)
  then obtain m where "n = Suc m" by (cases n) (auto split: if_splits)
  then show ?case by (simp add: is_digit_def strip_prefix_def)
next
  case (4 i)
  obtain c cs where "stringify (Num i) = c # cs" using stringify_start by blast
  with 4 obtain m where "n = Suc m" by (cases n) auto
  with 4 show ?case by (simp only: parse_value_Num)
next
  case (5 s)
  then obtain m where "n = Suc m" by (cases n) (auto simp add: quote_def)
  then show ?case by (simp only: parse_value_Str)
next
  case (6 vs)
  show ?case
  proof (rule parse_value_Arr)
    fix m r
    assume "vs \<noteq> []" "length (join_commas (stringify_items vs)) < m"
    with 6 show "parse_items m (join_commas (stringify_items vs) @ CHR '']'' # r) = Some (vs, r)"
      by simp
  qed (use 6 in simp)
next
  case (7 ms)
  show ?case
  proof (rule parse_value_Obj)
    fix m r
    assume "ms \<noteq> []" "length (join_commas (stringify_members ms)) < m"
    with 7 show "parse_members m (join_commas (stringify_members ms) @ CHR ''}'' # r) = Some (ms, r)"
      by simp
  qed (use 7 in simp_all)
next
  case 8
  then show ?case by simp
next
  case (9 v vs)
  show ?case
  proof (rule parse_items_Cons)
    fix m r
    assume "length (stringify v) \<le> m" "ends_number r"
    with 9 show "parse_value m (stringify v @ r) = Some (v, r)" by simp
  next
    fix m r
    assume "vs \<noteq> []" "length (join_commas (stringify_items vs)) < m"
    with 9 show "parse_items m (join_commas (stringify_items vs) @ CHR '']'' # r) = Some (vs, r)"
      by simp
  qed (use 9 in simp)
next
  case 10
  then show ?case by simp
next
  case (11 k v ms)
  then have def: "v \<noteq> Undefined" by auto
  show ?case
  proof (rule parse_members_Cons)
    fix m r
    assume "length (stringify v) \<le> m" "ends_number r"
    with 11 def show "parse_value m (stringify v @ r) = Some (v, r)" by simp
  next
    fix m r
    assume "ms \<noteq> []" "length (join_commas (stringify_members ms)) < m"
    with 11 def show "parse_members m (join_commas (stringify_members ms) @ CHR ''}'' # r) = Some (ms, r)"
      by simp
  qed (use 11 def in simp_all)
qed

lemma JSON_parse_stringify: "serializable v \<Longrightarrow> JSON_parse (stringify v) = Some v"
  using parse_stringify(1) [of v "Suc (length (stringify v))" "[]"]
  by (simp add: JSON_parse_def)

section \<open>Facts about the state manager\<close>

lemma serializable_createEmptyState: "serializable (createEmptyState stateId)"
  by (simp add: createEmptyState_def)

lemma state_sessionData:
  "JSON_parse (state (sessionData knex stateId)) = Some (createEmptyState stateId)"
  by (simp add: sessionData_def JSON_parse_stringify serializable_createEmptyState)

lemma getState_present:
  assumes "tbl X = Some s" "\<not> isExpired internals s"
  shows "getState (Suc n) internals knex tbl X =
         (case JSON_parse (state s) of
            None \<Rightarrow> Some (Inl SyntaxError, tbl)
          | Some doc \<Rightarrow> Some (Inr doc, tbl))"
  using assms by simp

lemma getState_expired:
  assumes "tbl X = Some s" "isExpired internals s"
  shows "getState (Suc n) internals knex tbl X = Some (Inl UniqueViolation, tbl)"
  using assms by (simp add: createSession_def)

lemma getState_absent:
  assumes "tbl X = None"
  shows "getState (Suc n) internals knex tbl X =
         getState n internals knex (tbl(X \<mapsto> sessionData knex X)) X"
  using assms by (simp add: createSession_def)

lemma createSession_persists:
  assumes "createSession knex tbl X = (Inr u, tbl')"
  shows "tbl' X = Some (sessionData knex X)"
  using assms by (auto simp add: createSession_def split: option.splits)

lemma getState_needs_second_activation:
  assumes "tbl X = None"
  shows "getState (Suc 0) internals knex tbl X = None"
  using assms by (simp add: createSession_def)

lemma setState_accepts:
  assumes "isNil V \<or> isPlainObject V"
  shows "setState knex tbl X V =
         upsertState knex tbl X (if isNil V then createEmptyState X else V)"
  using assms by (auto simp add: setState_def createEmptyState_def)

lemma upsertState_row:
  "\<exists>s. snd (upsertState knex tbl X D) X = Some s \<and> state s = stringify D"
  by (simp add: upsertState_def split: option.split)

section \<open>The claims\<close>

text \<open>
  C1.  When the table holds no row for the id, \<^verbatim>\<open>getState\<close> inserts the session data of
  \<^verbatim>\<open>_createSession\<close>, reads again and returns the empty state \<^verbatim>\<open>{ _stateId: X }\<close>; no error
  is raised for the missing id.  The second activation consults the expiry hook on the row
  just inserted, so the statement is for every hook that does not call that row expired;
  the hook the module installs by default (\<open>internals = None\<close>) never does.
\<close>

theorem getState_creates_missing_session:
  assumes "tbl X = None"
    and "\<not> isExpired internals (sessionData knex X)"
  shows "getState (Suc (Suc n)) internals knex tbl X =
         Some (Inr (createEmptyState X), tbl(X \<mapsto> sessionData knex X))"
proof -
  let ?tbl' = "tbl(X \<mapsto> sessionData knex X)"
  have "getState (Suc (Suc n)) internals knex tbl X = getState (Suc n) internals knex ?tbl' X"
    using assms(1) by (rule getState_absent)
  also have "\<dots> = (case JSON_parse (state (sessionData knex X)) of
                      None \<Rightarrow> Some (Inl SyntaxError, ?tbl')
                    | Some doc \<Rightarrow> Some (Inr doc, ?tbl'))"
    using assms(2) by (intro getState_present) simp_all
  also have "\<dots> = Some (Inr (createEmptyState X), ?tbl')"
    by (simp add: state_sessionData)
  finally show ?thesis .
qed

theorem getState_creates_missing_session_witness:
  "Map.empty ''conv1'' = (None :: session option) \<and>
   \<not> isExpired None (sessionData \<lparr>isLite = True, now = 7, created_on_default = None\<rparr> ''conv1'') \<and>
   getState (Suc (Suc 0)) None \<lparr>isLite = True, now = 7, created_on_default = None\<rparr>
     Map.empty ''conv1'' =
   Some (Inr (Obj [(''_stateId'', Str ''conv1'')]),
         [''conv1'' \<mapsto> sessionData \<lparr>isLite = True, now = 7, created_on_default = None\<rparr> ''conv1''])"
  using getState_creates_missing_session
    [of Map.empty "''conv1''" None "\<lparr>isLite = True, now = 7, created_on_default = None\<rparr>" 0]
  by (simp add: isExpired_def createEmptyState_def)

text \<open>
  C2.  After \<^verbatim>\<open>setState(X, D)\<close> with a plain object \<open>D\<close> that JSON can represent (no
  \<^verbatim>\<open>undefined\<close> inside, at any depth), \<^verbatim>\<open>getState(X)\<close> returns \<open>D\<close>: the text stored by the
  upsert parses back to the document.  This holds on both backends, whether or not a row
  existed, and for every hook that does not call the stored session expired (the default
  hook never does).
\<close>

theorem setState_getState_roundtrip:
  assumes "isPlainObject D"
    and "serializable D"
    and "snd (setState knex tbl X D) X = Some s"
    and "\<not> isExpired internals s"
  shows "fst (setState knex tbl X D) = Inr () \<and>
         getState (Suc n) internals knex' (snd (setState knex tbl X D)) X =
         Some (Inr D, snd (setState knex tbl X D))"
proof -
  have nil: "\<not> isNil D" using assms(1) by (cases D) simp_all
  have set: "setState knex tbl X D = upsertState knex tbl X D"
    using assms(1) nil by (simp add: setState_accepts)
  obtain s' where "snd (upsertState knex tbl X D) X = Some s'" "state s' = stringify D"
    using upsertState_row by blast
  with assms(3) set have st: "state s = stringify D" by simp
  have ok: "fst (setState knex tbl X D) = Inr ()"
    by (simp add: set upsertState_def split: option.split)
  have "getState (Suc n) internals knex' (snd (setState knex tbl X D)) X =
        (case JSON_parse (state s) of
           None \<Rightarrow> Some (Inl SyntaxError, snd (setState knex tbl X D))
         | Some doc \<Rightarrow> Some (Inr doc, snd (setState knex tbl X D)))"
    using assms(3,4) by (rule getState_present)
  also have "\<dots> = Some (Inr D, snd (setState knex tbl X D))"
    by (simp add: st JSON_parse_stringify [OF assms(2)])
  finally show ?thesis using ok by simp
qed

theorem setState_getState_roundtrip_witness:
  "isPlainObject (Obj [(''a'', Obj [(''b'', Arr [Num 1, Num 2, Num 3])])]) \<and>
   serializable (Obj [(''a'', Obj [(''b'', Arr [Num 1, Num 2, Num 3])])]) \<and>
   snd (setState \<lparr>isLite = False, now = 7, created_on_default = None\<rparr> Map.empty ''conv1''
          (Obj [(''a'', Obj [(''b'', Arr [Num 1, Num 2, Num 3])])])) ''conv1'' =
     Some \<lparr>id_col = ''conv1'',
           state = stringify (Obj [(''a'', Obj [(''b'', Arr [Num 1, Num 2, Num 3])])]),
           active_on = Some 7, created_on = Some 7\<rparr> \<and>
   \<not> isExpired None
       \<lparr>id_col = ''conv1'',
        state = stringify (Obj [(''a'', Obj [(''b'', Arr [Num 1, Num 2, Num 3])])]),
        active_on = Some 7, created_on = Some 7\<rparr> \<and>
   fst (setState \<lparr>isLite = False, now = 7, created_on_default = None\<rparr> Map.empty ''conv1''
          (Obj [(''a'', Obj [(''b'', Arr [Num 1, Num 2, Num 3])])])) = Inr () \<and>
   getState (Suc 0) None \<lparr>isLite = False, now = 9, created_on_default = None\<rparr>
     (snd (setState \<lparr>isLite = False, now = 7, created_on_default = None\<rparr> Map.empty ''conv1''
             (Obj [(''a'', Obj [(''b'', Arr [Num 1, Num 2, Num 3])])]))) ''conv1'' =
   Some (Inr (Obj [(''a'', Obj [(''b'', Arr [Num 1, Num 2, Num 3])])]),
         snd (setState \<lparr>isLite = False, now = 7, created_on_default = None\<rparr> Map.empty ''conv1''
                (Obj [(''a'', Obj [(''b'', Arr [Num 1, Num 2, Num 3])])])))"
proof -
  let ?D = "Obj [(''a'', Obj [(''b'', Arr [Num 1, Num 2, Num 3])])]"
  let ?K = "\<lparr>isLite = False, now = 7, created_on_default = None\<rparr>"
  let ?s = "\<lparr>id_col = ''conv1'', state = stringify ?D, active_on = Some 7, created_on = Some 7\<rparr>"
  have h1: "isPlainObject ?D" by simp
  have h2: "serializable ?D" by simp
  have h3: "snd (setState ?K Map.empty ''conv1'' ?D) ''conv1'' = Some ?s"
    by (simp add: setState_def upsertState_def)
  have h4: "\<not> isExpired None ?s" by (simp add: isExpired_def)
  show ?thesis
    using h1 h2 h3 h4
      setState_getState_roundtrip [OF h1 h2 h3 h4, of 0
        "\<lparr>isLite = False, now = 9, created_on_default = None\<rparr>"]
    by blast
qed

text \<open>
  C3.  The claim is that \<^verbatim>\<open>getState\<close> on an existing, expired session overwrites the row
  with the empty state and returns it on the retried read.  The expired branch calls
  \<^verbatim>\<open>_createSession\<close>, which is a plain insert; the row with that id is still in the table,
  so the insert is rejected and \<^verbatim>\<open>getState\<close> fails without changing the row.  The run below
  has a session last active at time 5 and a hook that expires sessions idle for more than
  100 at time 1000 (a session created at 1000 is not expired for it).
\<close>

theorem getState_expired_session_fails:
  "getState (Suc (Suc (Suc 0)))
     (Some (\<lambda>session. case active_on session of None \<Rightarrow> True | Some t \<Rightarrow> t + 100 < 1000))
     \<lparr>isLite = False, now = 1000, created_on_default = None\<rparr>
     [''conv1'' \<mapsto> \<lparr>id_col = ''conv1'', state = stringify (Obj [(''step'', Num 3)]),
                      active_on = Some 5, created_on = Some 5\<rparr>]
     ''conv1'' =
   Some (Inl UniqueViolation,
     [''conv1'' \<mapsto> \<lparr>id_col = ''conv1'', state = stringify (Obj [(''step'', Num 3)]),
                      active_on = Some 5, created_on = Some 5\<rparr>])"
  by (simp add: isExpired_def createSession_def)




text \<open>
  C5.  On the standard backend an accepted \<^verbatim>\<open>setState\<close> that meets an existing row updates
  \<^verbatim>\<open>active_on\<close> and \<^verbatim>\<open>state\<close> of that row and nothing else: \<^verbatim>\<open>created_on\<close> keeps the value
  it had, and so does every other row.
\<close>

theorem setState_standard_keeps_created_on:
  assumes "\<not> isLite knex"
    and "isNil V \<or> isPlainObject V"
    and "tbl X = Some existing"
  shows "setState knex tbl X V =
           (Inr (), tbl(X \<mapsto> existing\<lparr>active_on := Some (now knex),
              state := stringify (if isNil V then createEmptyState X else V)\<rparr>)) \<and>
         map_option created_on (snd (setState knex tbl X V) X) = Some (created_on existing)"
  using assms(1,3) by (simp add: setState_accepts [OF assms(2)] upsertState_def)

theorem setState_standard_keeps_created_on_witness:
  "\<not> isLite \<lparr>isLite = False, now = 9, created_on_default = None\<rparr> \<and>
   (isNil (Obj [(''step'', Num 3)]) \<or> isPlainObject (Obj [(''step'', Num 3)])) \<and>
   [''conv1'' \<mapsto> \<lparr>id_col = ''conv1'', state = stringify (Obj []),
                    active_on = Some 5, created_on = Some 5\<rparr>] ''conv1'' =
     Some \<lparr>id_col = ''conv1'', state = stringify (Obj []),
           active_on = Some 5, created_on = Some 5\<rparr> \<and>
   setState \<lparr>isLite = False, now = 9, created_on_default = None\<rparr>
     [''conv1'' \<mapsto> \<lparr>id_col = ''conv1'', state = stringify (Obj []),
                      active_on = Some 5, created_on = Some 5\<rparr>]
     ''conv1'' (Obj [(''step'', Num 3)]) =
   (Inr (), [''conv1'' \<mapsto> \<lparr>id_col = ''conv1'', state = stringify (Obj [(''step'', Num 3)]),
                              active_on = Some 9, created_on = Some 5\<rparr>])"
  using setState_standard_keeps_created_on
    [of "\<lparr>isLite = False, now = 9, created_on_default = None\<rparr>" "Obj [(''step'', Num 3)]"
        "[''conv1'' \<mapsto> \<lparr>id_col = ''conv1'', state = stringify (Obj []),
                           active_on = Some 5, created_on = Some 5\<rparr>]"
        "''conv1''"
        "\<lparr>id_col = ''conv1'', state = stringify (Obj []),
          active_on = Some 5, created_on = Some 5\<rparr>"]
  by simp

text \<open>
  C6.  A state that is neither nil nor a plain object (a boolean, a number, a string, an
  array) makes \<^verbatim>\<open>setState\<close> throw before \<^verbatim>\<open>_upsertState\<close> is reached: the outcome is the
  validation error and the table is the one the call found.
\<close>

theorem setState_rejects_non_object:
  assumes "\<not> isNil V"
    and "\<not> isPlainObject V"
  shows "setState knex tbl X V = (Inl StateMustBePlainObject, tbl)"
  using assms by (simp add: setState_def)

theorem setState_rejects_non_object_witness:
  "\<not> isNil (Arr [Num 1, Num 2, Num 3]) \<and> \<not> isPlainObject (Arr [Num 1, Num 2, Num 3]) \<and>
   setState \<lparr>isLite = True, now = 9, created_on_default = None\<rparr>
     [''conv1'' \<mapsto> \<lparr>id_col = ''conv1'', state = stringify (Obj []),
                      active_on = Some 5, created_on = Some 5\<rparr>]
     ''conv1'' (Arr [Num 1, Num 2, Num 3]) =
   (Inl StateMustBePlainObject,
    [''conv1'' \<mapsto> \<lparr>id_col = ''conv1'', state = stringify (Obj []),
                     active_on = Some 5, created_on = Some 5\<rparr>])"
  using setState_rejects_non_object
    [of "Arr [Num 1, Num 2, Num 3]" "\<lparr>isLite = True, now = 9, created_on_default = None\<rparr>"
        "[''conv1'' \<mapsto> \<lparr>id_col = ''conv1'', state = stringify (Obj []),
                           active_on = Some 5, created_on = Some 5\<rparr>]"
        "''conv1''"]
  by simp

text \<open>
  C7.  \<^verbatim>\<open>deleteState(X, S)\<close> removes the rows whose id is \<open>X\<close> or \<open>X\<close> followed by three
  underscores and a member of \<open>S\<close>, and leaves every other row as it was.  Without a second
  argument \<open>S\<close> is \<^verbatim>\<open>['context']\<close>; with the empty list only the row of \<open>X\<close> is removed.
\<close>

theorem deleteState_removes_key_set:
  "(\<forall>k. snd (deleteState tbl X (Some S)) k =
        (if k \<in> {X} \<union> {X @ ''___'' @ s | s. s \<in> set S} then None else tbl k)) \<and>
   deleteState tbl X None = deleteState tbl X (Some [''context'']) \<and>
   snd (deleteState tbl X (Some [])) = tbl(X := None)"
  by (auto simp add: deleteState_def)

theorem deleteState_removes_key_set_witness:
  "snd (deleteState
     [''conv1'' \<mapsto> sessionData \<lparr>isLite = True, now = 1, created_on_default = None\<rparr> ''conv1'',
      ''conv1___context'' \<mapsto>
        sessionData \<lparr>isLite = True, now = 2, created_on_default = None\<rparr> ''conv1___context'',
      ''conv2'' \<mapsto> sessionData \<lparr>isLite = True, now = 3, created_on_default = None\<rparr> ''conv2'']
     ''conv1'' None) =
   [''conv2'' \<mapsto> sessionData \<lparr>isLite = True, now = 3, created_on_default = None\<rparr> ''conv2'']"
proof
  fix k
  let ?tbl = "[''conv1'' \<mapsto> sessionData \<lparr>isLite = True, now = 1, created_on_default = None\<rparr> ''conv1'',
      ''conv1___context'' \<mapsto>
        sessionData \<lparr>isLite = True, now = 2, created_on_default = None\<rparr> ''conv1___context'',
      ''conv2'' \<mapsto> sessionData \<lparr>isLite = True, now = 3, created_on_default = None\<rparr> ''conv2'']"
  have "snd (deleteState ?tbl ''conv1'' None) k =
        (if k \<in> {''conv1''} \<union> {''conv1'' @ ''___'' @ s | s. s \<in> set [''context'']}
         then None else ?tbl k)"
    using deleteState_removes_key_set [of ?tbl "''conv1''" "[''context'']"] by simp
  then show "snd (deleteState ?tbl ''conv1'' None) k =
        [''conv2'' \<mapsto> sessionData \<lparr>isLite = True, now = 3, created_on_default = None\<rparr> ''conv2''] k"
    by auto
qed

text \<open>
  C8.  \<^verbatim>\<open>deleteState\<close> never fails, whether or not the rows it names are in the table: when
  none of them is there the table is left as it was, and a second call after a first one
  changes nothing and does not fail either.
\<close>

theorem deleteState_idempotent:
  "fst (deleteState tbl X S) = Inr () \<and>
   deleteState (snd (deleteState tbl X S)) X S = (Inr (), snd (deleteState tbl X S)) \<and>
   (tbl X = None \<and> (\<forall>s \<in> set subs. tbl (X @ ''___'' @ s) = None) \<longrightarrow>
      deleteState tbl X (Some subs) = (Inr (), tbl))"
  by (auto simp add: deleteState_def fun_eq_iff)

theorem deleteState_idempotent_witness:
  "deleteState (snd (deleteState
       [''conv1'' \<mapsto> sessionData \<lparr>isLite = True, now = 1, created_on_default = None\<rparr> ''conv1'']
       ''conv1'' None)) ''conv1'' None =
     (Inr (), snd (deleteState
       [''conv1'' \<mapsto> sessionData \<lparr>isLite = True, now = 1, created_on_default = None\<rparr> ''conv1'']
       ''conv1'' None)) \<and>
   Map.empty ''conv1'' = (None :: session option) \<and>
   Map.empty (''conv1'' @ ''___'' @ ''context'') = (None :: session option) \<and>
   deleteState Map.empty ''conv1'' (Some [''context'']) = (Inr (), Map.empty)"
  using deleteState_idempotent
    [of "[''conv1'' \<mapsto> sessionData \<lparr>isLite = True, now = 1, created_on_default = None\<rparr> ''conv1'']"
        "''conv1''" None "[]"]
    deleteState_idempotent [of Map.empty "''conv1''" None "[''context'']"]
  by simp

text \<open>
  C9.  \<^verbatim>\<open>setState\<close> with \<^verbatim>\<open>null\<close> or \<^verbatim>\<open>undefined\<close> does what \<^verbatim>\<open>setState\<close> with the empty
  state \<^verbatim>\<open>{ _stateId: X }\<close> does: same outcome, same table.
\<close>

theorem setState_nil_is_empty_state:
  assumes "isNil V"
  shows "setState knex tbl X V = setState knex tbl X (createEmptyState X)"
  using assms by (simp add: setState_def createEmptyState_def)

theorem setState_nil_is_empty_state_witness:
  "isNil Null \<and>
   setState \<lparr>isLite = False, now = 9, created_on_default = None\<rparr> Map.empty ''conv1'' Null =
   setState \<lparr>isLite = False, now = 9, created_on_default = None\<rparr> Map.empty ''conv1''
     (Obj [(''_stateId'', Str ''conv1'')])"
  using setState_nil_is_empty_state
    [of Null "\<lparr>isLite = False, now = 9, created_on_default = None\<rparr>" Map.empty "''conv1''"]
  by (simp add: createEmptyState_def)

text \<open>
  C10.  \<^verbatim>\<open>getState\<close> returns after at most two activations, that is after at most one call of
  itself: when the row is there the first activation returns; when it is not,
  \<^verbatim>\<open>_createSession\<close> puts it there (\<open>createSession_persists\<close>) and the second activation
  returns.  More room for activations never changes the outcome.  In this table an insert
  is seen by the next read, which is the claim's first precondition; its second
  precondition, that the hook does not call a fresh session expired, decides whether the
  second activation returns the empty state or the rejected insert, not whether it
  returns.
\<close>

theorem getState_returns_within_two_activations:
  "getState (Suc (Suc n)) internals knex tbl X \<noteq> None \<and>
   getState (Suc (Suc n)) internals knex tbl X = getState (Suc (Suc 0)) internals knex tbl X \<and>
   (tbl X \<noteq> None \<longrightarrow> getState (Suc 0) internals knex tbl X \<noteq> None)"
proof -
  have present: "getState (Suc m) internals knex t X \<noteq> None \<and>
      getState (Suc m) internals knex t X = getState (Suc 0) internals knex t X"
    if "t X = Some s" for m t s
  proof (cases "isExpired internals s")
    case True
    with that show ?thesis by (simp add: getState_expired del: getState.simps)
  next
    case False
    with that show ?thesis
      by (simp add: getState_present del: getState.simps split: option.split)
  qed
  show ?thesis
  proof (cases "tbl X")
    case None
    let ?t = "tbl(X \<mapsto> sessionData knex X)"
    have t: "?t X = Some (sessionData knex X)" by simp
    have a: "getState (Suc (Suc n)) internals knex tbl X = getState (Suc n) internals knex ?t X"
      using None by (rule getState_absent)
    have b: "getState (Suc (Suc 0)) internals knex tbl X = getState (Suc 0) internals knex ?t X"
      using None by (rule getState_absent)
    have p: "getState (Suc n) internals knex ?t X \<noteq> None \<and>
      getState (Suc n) internals knex ?t X = getState (Suc 0) internals knex ?t X"
      using t by (rule present)
    show ?thesis unfolding a b using p None by blast
  next
    case (Some s)
    have p: "getState (Suc (Suc n)) internals knex tbl X \<noteq> None \<and>
      getState (Suc (Suc n)) internals knex tbl X = getState (Suc 0) internals knex tbl X"
      using Some by (rule present)
    have q: "getState (Suc (Suc 0)) internals knex tbl X \<noteq> None \<and>
      getState (Suc (Suc 0)) internals knex tbl X = getState (Suc 0) internals knex tbl X"
      using Some by (rule present)
    show ?thesis using p q by metis
  qed
qed

theorem getState_returns_within_two_activations_witness:
  "getState (Suc (Suc 5)) None \<lparr>isLite = True, now = 7, created_on_default = None\<rparr>
     Map.empty ''conv1'' \<noteq> None \<and>
   getState (Suc (Suc 5)) None \<lparr>isLite = True, now = 7, created_on_default = None\<rparr>
     Map.empty ''conv1'' =
   getState (Suc (Suc 0)) None \<lparr>isLite = True, now = 7, created_on_default = None\<rparr>
     Map.empty ''conv1'' \<and>
   [''conv1'' \<mapsto> sessionData \<lparr>isLite = True, now = 1, created_on_default = None\<rparr> ''conv1'']
     ''conv1'' \<noteq> None \<and>
   getState (Suc 0) None \<lparr>isLite = True, now = 7, created_on_default = None\<rparr>
     [''conv1'' \<mapsto> sessionData \<lparr>isLite = True, now = 1, created_on_default = None\<rparr> ''conv1'']
     ''conv1'' \<noteq> None"
proof -
  let ?K = "\<lparr>isLite = True, now = 7, created_on_default = None\<rparr>"
  let ?tbl = "[''conv1'' \<mapsto>
    sessionData \<lparr>isLite = True, now = 1, created_on_default = None\<rparr> ''conv1'']"
  have h: "?tbl ''conv1'' \<noteq> None" by simp
  show ?thesis
    using h
      getState_returns_within_two_activations [of 5 None ?K Map.empty "''conv1''"]
      getState_returns_within_two_activations [of 0 None ?K ?tbl "''conv1''"]
    by blast
qed

end
